theory Spec2Isabelle
  imports Main "HOL-Library.AList"
begin

section \<open>The check-pricing-v2 route handler\<close>

text \<open>
  A shallow embedding of \<^verbatim>\<open>src/app/api/check-pricing-v2/route.ts\<close>, the handler
  \<^verbatim>\<open>POST\<close>. The handler validates the request body, asks the availability
  service, fetches one price calendar per month, resolves a price for every night,
  enforces the minimum stay and hands the nightly prices to the booking price
  calculation.

  Conventions of the model:
  \<^item> a JavaScript number is an \<open>int\<close> (guest counts, nights and amounts in whole
    units); \<open>undefined\<close>/\<open>null\<close> is \<open>None\<close>; a number is falsy when it is 0;
  \<^item> a \<^verbatim>\<open>Date\<close> is a civil date at local midnight, the value \<^verbatim>\<open>parseISO\<close> gives
    for a date-only string; its year is not negative, and an invalid date is
    outside the model;
  \<^item> the functions imported from other modules are fields of an environment
    record; an asynchronous one returns \<open>Inl message\<close> when it throws;
  \<^item> the handler returns its response together with the list of calls it made
    and of nightly prices it stored, in order.
\<close>

type_synonym number = int

subsection \<open>Dates\<close>

record date =
  d_year :: nat
  d_month :: nat
  d_day :: nat

text \<open>\<^verbatim>\<open>getFullYear()\<close>, \<^verbatim>\<open>getMonth()\<close> (zero-based) and \<^verbatim>\<open>getDate()\<close>.\<close>

definition getFullYear :: "date \<Rightarrow> number" where
  "getFullYear d = int (d_year d)"

definition getMonth :: "date \<Rightarrow> number" where
  "getMonth d = int (d_month d) - 1"

definition getDate :: "date \<Rightarrow> number" where
  "getDate d = int (d_day d)"

text \<open>\<^verbatim>\<open>a < b\<close> on two dates compares their time values.\<close>

definition date_less :: "date \<Rightarrow> date \<Rightarrow> bool" where
  "date_less a b \<longleftrightarrow>
     d_year a < d_year b \<or>
     (d_year a = d_year b \<and>
       (d_month a < d_month b \<or> (d_month a = d_month b \<and> d_day a < d_day b)))"

definition isLeapYear :: "nat \<Rightarrow> bool" where
  "isLeapYear y \<longleftrightarrow> (y mod 4 = 0 \<and> y mod 100 \<noteq> 0) \<or> y mod 400 = 0"

definition daysInMonth :: "nat \<Rightarrow> nat \<Rightarrow> nat" where
  "daysInMonth y m =
     (if m = 2 then (if isLeapYear y then 29 else 28)
      else if m = 4 \<or> m = 6 \<or> m = 9 \<or> m = 11 then 30
      else 31)"

definition validDate :: "date \<Rightarrow> bool" where
  "validDate d \<longleftrightarrow>
     1 \<le> d_month d \<and> d_month d \<le> 12 \<and> 1 \<le> d_day d \<and> d_day d \<le> daysInMonth (d_year d) (d_month d)"

text \<open>\<^verbatim>\<open>currentDate.setDate(currentDate.getDate() + 1)\<close>: the next civil day.\<close>

definition nextDay :: "date \<Rightarrow> date" where
  "nextDay d =
     (if d_day d < daysInMonth (d_year d) (d_month d) then d\<lparr>d_day := d_day d + 1\<rparr>
      else if d_month d < 12 then \<lparr>d_year = d_year d, d_month = d_month d + 1, d_day = 1\<rparr>
      else \<lparr>d_year = d_year d + 1, d_month = 1, d_day = 1\<rparr>)"

text \<open>The date of night \<open>n\<close> of a stay that starts at \<open>d\<close>.\<close>

definition nightDate :: "date \<Rightarrow> nat \<Rightarrow> date" where
  "nightDate d n = (nextDay ^^ n) d"

text \<open>
  The number of a civil day, counted from 1970-01-01, and date-fns'
  \<^verbatim>\<open>differenceInDays(later, earlier)\<close> on two midnights.
\<close>

definition dayNumber :: "date \<Rightarrow> int" where
  "dayNumber d =
     (let m = int (d_month d);
          y = (if m \<le> 2 then int (d_year d) - 1 else int (d_year d));
          era = y div 400;
          yoe = y - era * 400;
          doy = (153 * (if 2 < m then m - 3 else m + 9) + 2) div 5 + int (d_day d) - 1;
          doe = yoe * 365 + yoe div 4 - yoe div 100 + doy
      in era * 146097 + doe - 719468)"

definition differenceInDays :: "date \<Rightarrow> date \<Rightarrow> number" where
  "differenceInDays later earlier = dayNumber later - dayNumber earlier"

subsection \<open>Numbers and dates as text\<close>

definition digitChar :: "nat \<Rightarrow> char" where
  "digitChar n = char_of (48 + n)"

fun digits :: "nat \<Rightarrow> string" where
  "digits n = (if n < 10 then [digitChar n] else digits (n div 10) @ [digitChar (n mod 10)])"

declare digits.simps [simp del]

text \<open>\<^verbatim>\<open>n.toString()\<close> of an integer.\<close>

definition toString :: "number \<Rightarrow> string" where
  "toString i = (if i < 0 then CHR ''-'' # digits (nat (- i)) else digits (nat i))"

definition padStart :: "nat \<Rightarrow> string \<Rightarrow> string" where
  "padStart w s = replicate (w - length s) CHR ''0'' @ s"

text \<open>\<^verbatim>\<open>format(d, 'yyyy-MM-dd')\<close>.\<close>

definition format_yyyy_MM_dd :: "date \<Rightarrow> string" where
  "format_yyyy_MM_dd d =
     padStart 4 (digits (d_year d)) @ CHR ''-'' # padStart 2 (digits (d_month d))
       @ CHR ''-'' # padStart 2 (digits (d_day d))"

subsection \<open>Data of the collaborators\<close>

record dayPrice =
  basePrice :: number
  prices :: "(string \<rightharpoonup> number) option"
  minimumStay :: "number option"

record priceCalendar =
  year :: number
  month :: number
  days :: "string \<rightharpoonup> dayPrice"

record 'd property =
  baseOccupancy :: number
  extraGuestFee :: "number option"
  cleaningFee :: "number option"
  baseCurrency :: string
  defaultMinimumStay :: "number option"
  lengthOfStayDiscounts :: "'d option"

record availabilityResult =
  isAvailable :: bool
  unavailableDates :: "date list"
  source :: string

text \<open>
  The request body. A date field holds the date that \<^verbatim>\<open>parseISO\<close> reads from the
  string; \<open>None\<close> is an absent or empty field.
\<close>

record body =
  propertyId :: "string option"
  checkIn :: "date option"
  checkOut :: "date option"
  guests :: "number option"

text \<open>
  The imported functions. \<open>getPriceCalendarWithDb\<close> returns \<open>Inr None\<close> for
  \<^verbatim>\<open>null\<close>; \<open>'p\<close> is the type of the pricing details that
  \<open>calculateBookingPrice\<close> returns.
\<close>

record ('d, 'p) env =
  getPropertyWithDb :: "string \<Rightarrow> string + 'd property"
  checkAvailabilityWithFlags :: "string \<Rightarrow> date \<Rightarrow> date \<Rightarrow> string + availabilityResult"
  getMonthsBetweenDates :: "date \<Rightarrow> date \<Rightarrow> (number \<times> number) list"
  getPriceCalendarWithDb :: "string \<Rightarrow> number \<Rightarrow> number \<Rightarrow> string + priceCalendar option"
  calculateBookingPrice :: "(string \<times> number) list \<Rightarrow> number \<Rightarrow> 'd option \<Rightarrow> 'p"

subsection \<open>Responses and the record of what the handler did\<close>

text \<open>
  One constructor per \<^verbatim>\<open>NextResponse.json\<close> of the handler, in source order:
  the three 400 responses, the unavailable-dates answer, the two 404 responses,
  the minimum-stay answer, the priced answer, and the 500 response of the
  \<^verbatim>\<open>catch\<close> block.
\<close>

datatype 'p response =
    MissingParameters
  | PastCheckIn
  | InvalidDateRange
  | UnavailableDates "date list" string
  | PriceDataUnavailable
  | DayPriceUnavailable string
  | MinimumStay number number string
  | Priced 'p "(string \<times> number) list" string string
  | InternalError string

text \<open>\<^verbatim>\<open>meta.source\<close> of a response, for the three answers that have it.\<close>

fun metaSource :: "'p response \<Rightarrow> string option" where
  "metaSource (UnavailableDates ds s) = Some s"
| "metaSource (MinimumStay m r s) = Some s"
| "metaSource (Priced p rates cur s) = Some s"
| "metaSource _ = None"

datatype 'd event =
    GetProperty string
  | CheckAvailability string date date
  | GetMonths date date
  | GetPriceCalendar string number number
  | StorePrice string number
  | CalculateBookingPrice "(string \<times> number) list" number "'d option"

fun isCalculateBookingPrice :: "'d event \<Rightarrow> bool" where
  "isCalculateBookingPrice (CalculateBookingPrice ps fee ds) = True"
| "isCalculateBookingPrice _ = False"

subsection \<open>JavaScript operators on optional numbers\<close>

text \<open>
  \<^verbatim>\<open>x || d\<close> and \<^verbatim>\<open>x ?? d\<close> on a number that may be undefined: the first takes
  \<open>d\<close> for every falsy \<open>x\<close>, that is for undefined and for 0, the second only for
  undefined.
\<close>

definition orElse :: "number option \<Rightarrow> number \<Rightarrow> number" where
  "orElse x d = (case x of None \<Rightarrow> d | Some v \<Rightarrow> if v \<noteq> 0 then v else d)"

definition nullish :: "number option \<Rightarrow> number \<Rightarrow> number" where
  "nullish x d = (case x of None \<Rightarrow> d | Some v \<Rightarrow> v)"

subsection \<open>The nightly price (lines 136 to 155)\<close>

definition resolvePrice :: "number \<Rightarrow> 'd property \<Rightarrow> dayPrice \<Rightarrow> number" where
  "resolvePrice g property dp =
     (if g \<le> baseOccupancy property then basePrice dp
      else
        let occupancyPrice = (case prices dp of None \<Rightarrow> None | Some ps \<Rightarrow> ps (toString g));
            extraGuests = g - baseOccupancy property;
            fee = orElse (extraGuestFee property) 0;
            calculatedPrice = basePrice dp + extraGuests * fee
        in case occupancyPrice of
             None \<Rightarrow> calculatedPrice
           | Some v \<Rightarrow> if v \<noteq> 0 then v else calculatedPrice)"

subsection \<open>The loop over the nights (lines 108 to 164)\<close>

text \<open>
  Lines 117 to 131: the calendar of the date's year and month, found among the
  fetched calendars, and in it the entry of the day of the month.
\<close>

definition findCalendar :: "priceCalendar option list \<Rightarrow> number \<Rightarrow> number \<Rightarrow> priceCalendar option option" where
  "findCalendar calendars y m =
     List.find (\<lambda>c. case c of None \<Rightarrow> False | Some cal \<Rightarrow> year cal = y \<and> month cal = m) calendars"

definition lookupDayPrice :: "priceCalendar option list \<Rightarrow> date \<Rightarrow> dayPrice option" where
  "lookupDayPrice calendars d =
     (case findCalendar calendars (getFullYear d) (getMonth d + 1) of
        None \<Rightarrow> None
      | Some None \<Rightarrow> None
      | Some (Some calendar) \<Rightarrow> days calendar (toString (getDate d)))"

text \<open>
  The variables of the loop: \<open>dailyPrices\<close> keeps its keys in insertion order,
  \<open>requiredStay\<close> is the handler's variable \<^verbatim>\<open>minimumStay\<close>, and \<open>stored\<close>
  lists the assignments \<^verbatim>\<open>dailyPrices[dateStr] = price\<close> made so far.
\<close>

record loop_state =
  dailyPrices :: "(string \<times> number) list"
  requiredStay :: number
  currentDate :: date
  stored :: "(string \<times> number) list"

text \<open>One iteration; \<open>Inl\<close> is the early return of line 125 with the date it names.\<close>

definition nightStep ::
  "number \<Rightarrow> 'd property \<Rightarrow> priceCalendar option list \<Rightarrow> loop_state
     \<Rightarrow> (string \<times> (string \<times> number) list) + loop_state" where
  "nightStep g property calendars st =
     (let dateStr = format_yyyy_MM_dd (currentDate st) in
      case lookupDayPrice calendars (currentDate st) of
        None \<Rightarrow> Inl (dateStr, stored st)
      | Some dp \<Rightarrow>
          let price = resolvePrice g property dp in
          Inr \<lparr>dailyPrices = AList.update dateStr price (dailyPrices st),
               requiredStay =
                 (case minimumStay dp of
                    None \<Rightarrow> requiredStay st
                  | Some m \<Rightarrow> if m \<noteq> 0 \<and> requiredStay st < m then m else requiredStay st),
               currentDate = nextDay (currentDate st),
               stored = stored st @ [(dateStr, price)]\<rparr>)"

fun nightLoop ::
  "number \<Rightarrow> 'd property \<Rightarrow> priceCalendar option list \<Rightarrow> nat \<Rightarrow> loop_state
     \<Rightarrow> (string \<times> (string \<times> number) list) + loop_state" where
  "nightLoop g property calendars 0 st = Inr st"
| "nightLoop g property calendars (Suc k) st =
     (case nightStep g property calendars st of
        Inl e \<Rightarrow> Inl e
      | Inr st' \<Rightarrow> nightLoop g property calendars k st')"

text \<open>Lines 108 to 112: the state before the first night.\<close>

definition initialState :: "'d property \<Rightarrow> date \<Rightarrow> loop_state" where
  "initialState property checkInDate =
     \<lparr>dailyPrices = [], requiredStay = nullish (defaultMinimumStay property) 1,
      currentDate = checkInDate, stored = []\<rparr>"

subsection \<open>The handler\<close>

text \<open>
  \<^verbatim>\<open>Promise.all\<close> over the calendar fetches: every fetch is started; the result is
  the list of calendars, or the rejection of a fetch that threw (here the first
  in list order).
\<close>

fun promiseAll :: "(string + 'a) list \<Rightarrow> string + 'a list" where
  "promiseAll [] = Inr []"
| "promiseAll (r # rs) =
     (case r of
        Inl e \<Rightarrow> Inl e
      | Inr v \<Rightarrow> (case promiseAll rs of Inl e \<Rightarrow> Inl e | Inr vs \<Rightarrow> Inr (v # vs)))"

definition fetchCalendars :: "('d, 'p) env \<Rightarrow> string \<Rightarrow> (number \<times> number) list \<Rightarrow> string + priceCalendar option list" where
  "fetchCalendars env pid months =
     promiseAll (map (\<lambda>(y, m). getPriceCalendarWithDb env pid y m) months)"

text \<open>Line 21: every field present and truthy.\<close>

definition requiredParameters :: "body \<Rightarrow> (string \<times> date \<times> date \<times> number) option" where
  "requiredParameters b =
     (case (propertyId b, checkIn b, checkOut b, guests b) of
        (Some pid, Some cin, Some cout, Some g) \<Rightarrow>
          if pid \<noteq> [] \<and> g \<noteq> 0 then Some (pid, cin, cout, g) else None
      | _ \<Rightarrow> None)"

text \<open>Lines 89 to 211: from the calendar fetches to the priced answer.\<close>

definition priceStay ::
  "('d, 'p) env \<Rightarrow> string \<Rightarrow> date \<Rightarrow> date \<Rightarrow> number \<Rightarrow> 'd property \<Rightarrow> number \<Rightarrow> string \<Rightarrow> 'd event list
     \<Rightarrow> 'p response \<times> 'd event list" where
  "priceStay env pid checkInDate checkOutDate g property nights src evs =
     (let months = getMonthsBetweenDates env checkInDate checkOutDate;
          evs' = evs @ GetMonths checkInDate checkOutDate # map (\<lambda>(y, m). GetPriceCalendar pid y m) months
      in case fetchCalendars env pid months of
           Inl msg \<Rightarrow> (InternalError msg, evs')
         | Inr calendars \<Rightarrow>
            (if list_ex Option.is_none calendars then (PriceDataUnavailable, evs')
             else
              (case nightLoop g property calendars (nat nights) (initialState property checkInDate) of
                 Inl (dateStr, ps) \<Rightarrow>
                   (DayPriceUnavailable dateStr, evs' @ map (\<lambda>(k, v). StorePrice k v) ps)
               | Inr st \<Rightarrow>
                  (let evs'' = evs' @ map (\<lambda>(k, v). StorePrice k v) (stored st) in
                   if \<not> requiredStay st \<le> nights
                   then (MinimumStay (requiredStay st) (requiredStay st) src, evs'')
                   else
                     let fee = orElse (cleaningFee property) 0;
                         pricingDetails =
                           calculateBookingPrice env (dailyPrices st) fee (lengthOfStayDiscounts property)
                     in (Priced pricingDetails (dailyPrices st) (baseCurrency property) src,
                         evs'' @ [CalculateBookingPrice (dailyPrices st) fee (lengthOfStayDiscounts property)])))))"

text \<open>Lines 14 to 87 and the \<^verbatim>\<open>catch\<close> block; \<open>today\<close> is today's midnight.\<close>

definition POST :: "('d, 'p) env \<Rightarrow> date \<Rightarrow> body \<Rightarrow> 'p response \<times> 'd event list" where
  "POST env today b =
     (case requiredParameters b of
        None \<Rightarrow> (MissingParameters, [])
      | Some (pid, checkInDate, checkOutDate, g) \<Rightarrow>
         (if date_less checkInDate today then (PastCheckIn, [])
          else if \<not> date_less checkInDate checkOutDate then (InvalidDateRange, [])
          else
           (case getPropertyWithDb env pid of
              Inl msg \<Rightarrow> (InternalError msg, [GetProperty pid])
            | Inr property \<Rightarrow>
               (let nights = differenceInDays checkOutDate checkInDate;
                    evs = [GetProperty pid, CheckAvailability pid checkInDate checkOutDate]
                in (case checkAvailabilityWithFlags env pid checkInDate checkOutDate of
                      Inl msg \<Rightarrow> (InternalError msg, evs)
                    | Inr availabilityResult \<Rightarrow>
                       (if \<not> isAvailable availabilityResult
                        then (UnavailableDates (unavailableDates availabilityResult)
                                (source availabilityResult), evs)
                        else priceStay env pid checkInDate checkOutDate g property nights
                               (source availabilityResult) evs))))))"

subsection \<open>Reading a decimal numeral back\<close>

text \<open>The number that a string of decimal digits denotes; leading zeros do not count.\<close>

definition digitsValue :: "string \<Rightarrow> nat" where
  "digitsValue s = foldl (\<lambda>a c. 10 * a + (of_char c - 48)) 0 s"

subsection \<open>A property, two calendars and an environment to run the handler on\<close>

definition ymd :: "nat \<Rightarrow> nat \<Rightarrow> nat \<Rightarrow> date" where
  "ymd y m d = \<lparr>d_year = y, d_month = m, d_day = d\<rparr>"

definition villa :: "unit property" where
  "villa = \<lparr>baseOccupancy = 2, extraGuestFee = Some 10, cleaningFee = Some 20,
     baseCurrency = ''EUR'', defaultMinimumStay = None, lengthOfStayDiscounts = None\<rparr>"

definition overrides :: "string \<rightharpoonup> number" where
  "overrides = [''3'' \<mapsto> 150, ''4'' \<mapsto> 0]"

definition jan30 :: dayPrice where
  "jan30 = \<lparr>basePrice = 100, prices = Some overrides, minimumStay = None\<rparr>"

definition jan31 :: dayPrice where
  "jan31 = \<lparr>basePrice = 110, prices = None, minimumStay = Some 2\<rparr>"

definition feb01 :: dayPrice where
  "feb01 = \<lparr>basePrice = 90, prices = None, minimumStay = Some 4\<rparr>"

definition january :: priceCalendar where
  "january = \<lparr>year = 2030, month = 1, days = [''30'' \<mapsto> jan30, ''31'' \<mapsto> jan31]\<rparr>"

definition february :: priceCalendar where
  "february = \<lparr>year = 2030, month = 2, days = [''1'' \<mapsto> feb01]\<rparr>"

text \<open>
  The availability service reports a stay that starts on the 29th as taken; only
  January and February 2030 have a calendar; the price calculation adds the
  nightly prices and the cleaning fee.
\<close>

definition sampleEnv :: "(unit, number) env" where
  "sampleEnv =
     \<lparr>getPropertyWithDb = (\<lambda>pid. if pid = ''villa'' then Inr villa else Inl ''Property not found''),
      checkAvailabilityWithFlags = (\<lambda>pid cin cout.
        Inr (if d_day cin = 29
             then \<lparr>isAvailable = False, unavailableDates = [cin], source = ''availability''\<rparr>
             else \<lparr>isAvailable = True, unavailableDates = [], source = ''availability''\<rparr>)),
      getMonthsBetweenDates = (\<lambda>cin cout.
        if d_year cin = d_year cout \<and> d_month cin = d_month cout
        then [(getFullYear cin, getMonth cin + 1)]
        else [(getFullYear cin, getMonth cin + 1), (getFullYear cout, getMonth cout + 1)]),
      getPriceCalendarWithDb = (\<lambda>pid y m.
        Inr (if y = 2030 \<and> m = 1 then Some january
             else if y = 2030 \<and> m = 2 then Some february else None)),
      calculateBookingPrice = (\<lambda>ps fee ds. sum_list (map snd ps) + fee)\<rparr>"

definition request :: "date \<Rightarrow> date \<Rightarrow> number \<Rightarrow> body" where
  "request cin cout g =
     \<lparr>propertyId = Some ''villa'', checkIn = Some cin, checkOut = Some cout, guests = Some g\<rparr>"

section \<open>Properties\<close>

subsection \<open>Dates and their text\<close>

lemma date_less_nextDay: "date_less d (nextDay d)"
  by (simp add: date_less_def nextDay_def)

lemma date_less_trans: "date_less a b \<Longrightarrow> date_less b c \<Longrightarrow> date_less a c"
  by (auto simp: date_less_def)

lemma date_less_irrefl: "\<not> date_less d d"
  by (simp add: date_less_def)

lemma nightDate_0: "nightDate d 0 = d"
  by (simp add: nightDate_def)

lemma nightDate_Suc: "nightDate d (Suc n) = nightDate (nextDay d) n"
  by (simp add: nightDate_def funpow_swap1)

lemma nightDate_step: "nightDate d (Suc n) = nextDay (nightDate d n)"
  by (simp add: nightDate_def)

lemma date_less_nightDate: "date_less d (nightDate d (Suc n))"
proof (induction n)
  case 0
  show ?case by (simp add: nightDate_step nightDate_0 date_less_nextDay)
next
  case (Suc n)
  have "date_less (nightDate d (Suc n)) (nightDate d (Suc (Suc n)))"
    by (simp add: nightDate_step date_less_nextDay)
  with Suc show ?case by (rule date_less_trans)
qed

lemma nightDate_neq: "nightDate d (Suc n) \<noteq> d"
  using date_less_nightDate [of d n] date_less_irrefl [of d] by auto

lemma daysInMonth_le: "daysInMonth y m \<le> 31"
  by (simp add: daysInMonth_def)

lemma daysInMonth_ge: "1 \<le> daysInMonth y m"
  by (simp add: daysInMonth_def)

lemma validDate_nextDay: "validDate d \<Longrightarrow> validDate (nextDay d)"
  using daysInMonth_ge by (auto simp: validDate_def nextDay_def)

lemma validDate_nightDate: "validDate d \<Longrightarrow> validDate (nightDate d n)"
  by (induction n) (simp_all add: nightDate_0 nightDate_step validDate_nextDay)

lemma digitsValue_snoc: "digitsValue (s @ [c]) = 10 * digitsValue s + (of_char c - 48)"
  by (simp add: digitsValue_def)

lemma digitValue_digitChar: "n < 10 \<Longrightarrow> of_char (digitChar n) - 48 = n"
  by (simp add: digitChar_def)

lemma digitsValue_digits: "digitsValue (digits n) = n"
proof (induction n rule: digits.induct)
  case (1 n)
  show ?case
  proof (cases "n < 10")
    case True
    then show ?thesis
      by (subst digits.simps) (simp add: digitsValue_def digitValue_digitChar)
  next
    case False
    with 1 have "digitsValue (digits (n div 10)) = n div 10" by simp
    with False show ?thesis
      by (subst digits.simps) (simp add: digitsValue_snoc digitValue_digitChar)
  qed
qed

lemma digitsValue_zeros: "foldl (\<lambda>a c. 10 * a + (of_char c - 48)) 0 (replicate k CHR ''0'') = (0::nat)"
  by (induction k) simp_all

lemma digitsValue_padStart: "digitsValue (padStart w s) = digitsValue s"
  by (simp add: digitsValue_def padStart_def digitsValue_zeros)

lemma padStart_digits_inj: "padStart w (digits a) = padStart w (digits b) \<Longrightarrow> a = b"
  by (metis digitsValue_padStart digitsValue_digits)

lemma length_digits_small:
  assumes "n < 100"
  shows "length (digits n) \<le> 2"
proof -
  from assms have "n div 10 < 10" by simp
  then have "digits (n div 10) = [digitChar (n div 10)]"
    by (subst digits.simps) simp
  then show ?thesis
    by (subst digits.simps) simp
qed

lemma length_padStart2: "n < 100 \<Longrightarrow> length (padStart 2 (digits n)) = 2"
  using length_digits_small [of n] by (simp add: padStart_def)

lemma format_inj:
  assumes "format_yyyy_MM_dd a = format_yyyy_MM_dd b"
    and "validDate a" and "validDate b"
  shows "a = b"
proof -
  have ma: "d_month a < 100" and da: "d_day a < 100"
    and mb: "d_month b < 100" and db: "d_day b < 100"
    using assms(2,3) daysInMonth_le [of "d_year a" "d_month a"]
      daysInMonth_le [of "d_year b" "d_month b"]
    by (auto simp: validDate_def)
  let ?ta = "CHR ''-'' # padStart 2 (digits (d_month a)) @ CHR ''-'' # padStart 2 (digits (d_day a))"
  let ?tb = "CHR ''-'' # padStart 2 (digits (d_month b)) @ CHR ''-'' # padStart 2 (digits (d_day b))"
  have len: "length ?ta = length ?tb"
    by (simp add: length_padStart2 ma da mb db)
  have "padStart 4 (digits (d_year a)) @ ?ta = padStart 4 (digits (d_year b)) @ ?tb"
    using assms(1) by (simp add: format_yyyy_MM_dd_def)
  with len have yt: "padStart 4 (digits (d_year a)) = padStart 4 (digits (d_year b)) \<and> ?ta = ?tb"
    using append_eq_append_conv [of "padStart 4 (digits (d_year a))" "padStart 4 (digits (d_year b))" ?ta ?tb]
    by blast
  then have y: "padStart 4 (digits (d_year a)) = padStart 4 (digits (d_year b))"
    and t: "?ta = ?tb"
    by blast+
  from t have "padStart 2 (digits (d_month a)) @ CHR ''-'' # padStart 2 (digits (d_day a))
      = padStart 2 (digits (d_month b)) @ CHR ''-'' # padStart 2 (digits (d_day b))"
    by simp
  moreover have "length (padStart 2 (digits (d_month a))) = length (padStart 2 (digits (d_month b)))"
    by (simp add: length_padStart2 ma mb)
  ultimately have m: "padStart 2 (digits (d_month a)) = padStart 2 (digits (d_month b))"
    and d: "padStart 2 (digits (d_day a)) = padStart 2 (digits (d_day b))"
    by simp_all
  from y m d have "d_year a = d_year b" "d_month a = d_month b" "d_day a = d_day b"
    by (auto dest: padStart_digits_inj)
  then show ?thesis by simp
qed

lemma format_nightDate_neq:
  assumes "validDate d"
  shows "format_yyyy_MM_dd (nightDate d (Suc n)) \<noteq> format_yyyy_MM_dd d"
proof
  assume "format_yyyy_MM_dd (nightDate d (Suc n)) = format_yyyy_MM_dd d"
  then have "nightDate d (Suc n) = d"
    using assms validDate_nightDate [OF assms] by (intro format_inj) auto
  then show False using nightDate_neq by blast
qed

subsection \<open>The loop over the nights\<close>

lemma nightStep_Inr:
  assumes "nightStep g property calendars st = Inr st'"
  obtains dp where "lookupDayPrice calendars (currentDate st) = Some dp"
    and "dailyPrices st' = AList.update (format_yyyy_MM_dd (currentDate st)) (resolvePrice g property dp) (dailyPrices st)"
    and "requiredStay st' =
           (case minimumStay dp of
              None \<Rightarrow> requiredStay st
            | Some m \<Rightarrow> if m \<noteq> 0 \<and> requiredStay st < m then m else requiredStay st)"
    and "currentDate st' = nextDay (currentDate st)"
    and "stored st' = stored st @ [(format_yyyy_MM_dd (currentDate st), resolvePrice g property dp)]"
  using assms by (auto simp: nightStep_def Let_def split: option.splits)

lemma nightStep_Inl:
  "nightStep g property calendars st = Inl e \<longleftrightarrow>
     lookupDayPrice calendars (currentDate st) = None \<and> e = (format_yyyy_MM_dd (currentDate st), stored st)"
  by (auto simp: nightStep_def Let_def split: option.splits)

lemma nightLoop_untouched:
  assumes "nightLoop g property calendars k st = Inr st'"
    and "\<And>i. i < k \<Longrightarrow> format_yyyy_MM_dd (nightDate (currentDate st) i) \<noteq> key"
  shows "map_of (dailyPrices st') key = map_of (dailyPrices st) key"
  using assms
proof (induction k arbitrary: st)
  case 0
  then show ?case by simp
next
  case (Suc k)
  from Suc.prems(1) obtain st1 where step: "nightStep g property calendars st = Inr st1"
    and rest: "nightLoop g property calendars k st1 = Inr st'"
    by (auto split: sum.splits)
  from step obtain dp where
    dps: "dailyPrices st1 = AList.update (format_yyyy_MM_dd (currentDate st)) (resolvePrice g property dp) (dailyPrices st)"
    and cur: "currentDate st1 = nextDay (currentDate st)"
    by (rule nightStep_Inr)
  have "format_yyyy_MM_dd (nightDate (currentDate st1) i) \<noteq> key" if "i < k" for i
    using Suc.prems(2) [of "Suc i"] that by (simp add: cur nightDate_Suc)
  with rest have "map_of (dailyPrices st') key = map_of (dailyPrices st1) key"
    by (rule Suc.IH)
  moreover have "format_yyyy_MM_dd (currentDate st) \<noteq> key"
    using Suc.prems(2) [of 0] by (simp add: nightDate_0)
  ultimately show ?case
    by (simp add: dps update_conv')
qed

lemma nightLoop_price:
  assumes "nightLoop g property calendars k st = Inr st'"
    and "validDate (currentDate st)"
    and "n < k"
  shows "\<exists>dp. lookupDayPrice calendars (nightDate (currentDate st) n) = Some dp \<and>
           map_of (dailyPrices st') (format_yyyy_MM_dd (nightDate (currentDate st) n))
             = Some (resolvePrice g property dp)"
  using assms
proof (induction k arbitrary: st n)
  case 0
  then show ?case by simp
next
  case (Suc k)
  from Suc.prems(1) obtain st1 where step: "nightStep g property calendars st = Inr st1"
    and rest: "nightLoop g property calendars k st1 = Inr st'"
    by (auto split: sum.splits)
  from step obtain dp where
    look: "lookupDayPrice calendars (currentDate st) = Some dp"
    and dps: "dailyPrices st1 = AList.update (format_yyyy_MM_dd (currentDate st)) (resolvePrice g property dp) (dailyPrices st)"
    and cur: "currentDate st1 = nextDay (currentDate st)"
    by (rule nightStep_Inr)
  have valid1: "validDate (currentDate st1)"
    using Suc.prems(2) by (simp add: cur validDate_nextDay)
  show ?case
  proof (cases n)
    case 0
    have "format_yyyy_MM_dd (nightDate (currentDate st1) i) \<noteq> format_yyyy_MM_dd (currentDate st)" for i
      using format_nightDate_neq [OF Suc.prems(2), of i] by (simp add: cur nightDate_Suc)
    with rest have "map_of (dailyPrices st') (format_yyyy_MM_dd (currentDate st))
        = map_of (dailyPrices st1) (format_yyyy_MM_dd (currentDate st))"
      by (rule nightLoop_untouched)
    with look show ?thesis
      by (simp add: 0 nightDate_0 dps update_conv')
  next
    case (Suc m)
    with Suc.prems(3) have "m < k" by simp
    from Suc.IH [OF rest valid1 this] show ?thesis
      by (simp add: Suc cur nightDate_Suc)
  qed
qed

lemma nightLoop_fails_at:
  assumes "n < k"
    and "lookupDayPrice calendars (nightDate (currentDate st) n) = None"
    and "\<And>i. i < n \<Longrightarrow> lookupDayPrice calendars (nightDate (currentDate st) i) \<noteq> None"
  shows "\<exists>evs. nightLoop g property calendars k st = Inl (format_yyyy_MM_dd (nightDate (currentDate st) n), evs)"
  using assms
proof (induction k arbitrary: st n)
  case 0
  then show ?case by simp
next
  case (Suc k)
  show ?case
  proof (cases n)
    case 0
    with Suc.prems(2) have "lookupDayPrice calendars (currentDate st) = None"
      by (simp add: nightDate_0)
    then have "nightStep g property calendars st = Inl (format_yyyy_MM_dd (currentDate st), stored st)"
      by (simp add: nightStep_Inl)
    then show ?thesis by (simp add: 0 nightDate_0)
  next
    case (Suc m)
    from Suc.prems(3) [of 0] Suc have "lookupDayPrice calendars (currentDate st) \<noteq> None"
      by (simp add: nightDate_0)
    then obtain st1 where step: "nightStep g property calendars st = Inr st1"
      by (cases "nightStep g property calendars st") (auto simp: nightStep_Inl)
    from step obtain dp where cur: "currentDate st1 = nextDay (currentDate st)"
      by (rule nightStep_Inr)
    have "m < k" using Suc Suc.prems(1) by simp
    moreover have "lookupDayPrice calendars (nightDate (currentDate st1) m) = None"
      using Suc.prems(2) by (simp add: Suc cur nightDate_Suc)
    moreover have "lookupDayPrice calendars (nightDate (currentDate st1) i) \<noteq> None" if "i < m" for i
      using Suc.prems(3) [of "Suc i"] that by (simp add: Suc cur nightDate_Suc)
    ultimately have "\<exists>evs. nightLoop g property calendars k st1
        = Inl (format_yyyy_MM_dd (nightDate (currentDate st1) m), evs)"
      by (rule Suc.IH)
    then show ?thesis
      by (simp add: step Suc cur nightDate_Suc)
  qed
qed

lemma nightLoop_requiredStay_ge:
  assumes "nightLoop g property calendars k st = Inr st'"
  shows "requiredStay st \<le> requiredStay st'"
  using assms
proof (induction k arbitrary: st)
  case 0
  then show ?case by simp
next
  case (Suc k)
  from Suc.prems obtain st1 where step: "nightStep g property calendars st = Inr st1"
    and rest: "nightLoop g property calendars k st1 = Inr st'"
    by (auto split: sum.splits)
  from step have "requiredStay st \<le> requiredStay st1"
    by (rule nightStep_Inr) (simp split: option.splits)
  also from rest have "requiredStay st1 \<le> requiredStay st'"
    by (rule Suc.IH)
  finally show ?case .
qed

lemma nightLoop_requiredStay_bound:
  assumes "nightLoop g property calendars k st = Inr st'"
    and "i < k"
    and "lookupDayPrice calendars (nightDate (currentDate st) i) = Some dp"
    and "minimumStay dp = Some m"
    and "m \<noteq> 0"
  shows "m \<le> requiredStay st'"
  using assms(1,2,3)
proof (induction k arbitrary: st i)
  case 0
  then show ?case by simp
next
  case (Suc k)
  from Suc.prems(1) obtain st1 where step: "nightStep g property calendars st = Inr st1"
    and rest: "nightLoop g property calendars k st1 = Inr st'"
    by (auto split: sum.splits)
  from step obtain dp0 where
    look: "lookupDayPrice calendars (currentDate st) = Some dp0"
    and req: "requiredStay st1 =
           (case minimumStay dp0 of
              None \<Rightarrow> requiredStay st
            | Some m \<Rightarrow> if m \<noteq> 0 \<and> requiredStay st < m then m else requiredStay st)"
    and cur: "currentDate st1 = nextDay (currentDate st)"
    by (rule nightStep_Inr)
  show ?case
  proof (cases i)
    case 0
    with Suc.prems(3) look have "dp0 = dp" by (simp add: nightDate_0)
    with req assms(4,5) have "m \<le> requiredStay st1"
      by simp
    also from rest have "requiredStay st1 \<le> requiredStay st'"
      by (rule nightLoop_requiredStay_ge)
    finally show ?thesis .
  next
    case (Suc j)
    with Suc.prems(2) have "j < k" by simp
    moreover have "lookupDayPrice calendars (nightDate (currentDate st1) j) = Some dp"
      using Suc.prems(3) by (simp add: Suc cur nightDate_Suc)
    ultimately show ?thesis
      using Suc.IH [OF rest] by blast
  qed
qed

lemma nightLoop_requiredStay_attained:
  assumes "nightLoop g property calendars k st = Inr st'"
  shows "requiredStay st' = requiredStay st \<or>
     (requiredStay st' \<noteq> 0 \<and>
      (\<exists>i<k. \<exists>dp. lookupDayPrice calendars (nightDate (currentDate st) i) = Some dp \<and>
         minimumStay dp = Some (requiredStay st')))"
  using assms
proof (induction k arbitrary: st)
  case 0
  then show ?case by simp
next
  case (Suc k)
  from Suc.prems(1) obtain st1 where step: "nightStep g property calendars st = Inr st1"
    and rest: "nightLoop g property calendars k st1 = Inr st'"
    by (auto split: sum.splits)
  from step obtain dp0 where
    look: "lookupDayPrice calendars (currentDate st) = Some dp0"
    and req: "requiredStay st1 =
           (case minimumStay dp0 of
              None \<Rightarrow> requiredStay st
            | Some m \<Rightarrow> if m \<noteq> 0 \<and> requiredStay st < m then m else requiredStay st)"
    and cur: "currentDate st1 = nextDay (currentDate st)"
    by (rule nightStep_Inr)
  from Suc.IH [OF rest] consider
    (same) "requiredStay st' = requiredStay st1"
    | (later) j dp where "requiredStay st' \<noteq> 0" "j < k"
        "lookupDayPrice calendars (nightDate (currentDate st1) j) = Some dp"
        "minimumStay dp = Some (requiredStay st')"
    by blast
  then show ?case
  proof cases
    case same
    show ?thesis
    proof (cases "requiredStay st1 = requiredStay st")
      case True
      with same show ?thesis by simp
    next
      case False
      with req same have "minimumStay dp0 = Some (requiredStay st')" "requiredStay st' \<noteq> 0"
        by (auto split: option.splits if_splits)
      moreover have "lookupDayPrice calendars (nightDate (currentDate st) 0) = Some dp0"
        using look by (simp add: nightDate_0)
      ultimately show ?thesis by blast
    qed
  next
    case later
    from later(3) have "lookupDayPrice calendars (nightDate (currentDate st) (Suc j)) = Some dp"
      by (simp add: cur nightDate_Suc)
    moreover from later(2) have "Suc j < Suc k" by simp
    ultimately show ?thesis
      using later(1,4) by blast
  qed
qed

lemma finite_nightly_values:
  "finite {m. P m \<and> (\<exists>i<(k::nat). \<exists>dp. f i = Some dp \<and> h dp = Some m)}"
proof -
  have "{m. P m \<and> (\<exists>i<k. \<exists>dp. f i = Some dp \<and> h dp = Some m)}
      \<subseteq> (\<lambda>i. the (h (the (f i)))) ` {..<k}"
    by force
  then show ?thesis
    by (rule finite_subset) simp
qed

lemma nightLoop_stored:
  assumes "nightLoop g property calendars k st = Inr st'"
  shows "map fst (stored st') =
    map fst (stored st) @ map (\<lambda>i. format_yyyy_MM_dd (nightDate (currentDate st) i)) [0..<k]"
  using assms
proof (induction k arbitrary: st)
  case 0
  then show ?case by simp
next
  case (Suc k)
  from Suc.prems obtain st1 where step: "nightStep g property calendars st = Inr st1"
    and rest: "nightLoop g property calendars k st1 = Inr st'"
    by (auto split: sum.splits)
  from step obtain dp where
    sto: "stored st1 = stored st @ [(format_yyyy_MM_dd (currentDate st), resolvePrice g property dp)]"
    and cur: "currentDate st1 = nextDay (currentDate st)"
    by (rule nightStep_Inr)
  have "[0..<Suc k] = 0 # map Suc [0..<k]"
    by (simp add: upt_conv_Cons map_Suc_upt del: upt_Suc)
  then have "map (\<lambda>i. format_yyyy_MM_dd (nightDate (currentDate st) i)) [0..<Suc k] =
      format_yyyy_MM_dd (currentDate st)
        # map (\<lambda>i. format_yyyy_MM_dd (nightDate (currentDate st1) i)) [0..<k]"
    by (simp add: nightDate_0 nightDate_Suc cur comp_def del: upt_Suc)
  with Suc.IH [OF rest] sto show ?case
    by (simp del: upt_Suc)
qed

lemma some_null_iff: "list_ex Option.is_none calendars \<longleftrightarrow> None \<in> set calendars"
  by (auto simp: list_ex_iff Option.is_none_def)

text \<open>The fetches give a list of calendars exactly when every one of them returns.\<close>

lemma promiseAll_map_Inr: "promiseAll (map Inr vs) = Inr vs"
  by (induction vs) simp_all

lemma promiseAll_Inr: "promiseAll rs = Inr vs \<longleftrightarrow> rs = map Inr vs"
proof
  show "promiseAll rs = Inr vs \<Longrightarrow> rs = map Inr vs"
    by (induction rs arbitrary: vs) (auto split: sum.splits)
  show "rs = map Inr vs \<Longrightarrow> promiseAll rs = Inr vs"
    by (simp add: promiseAll_map_Inr)
qed

lemma fetchCalendars_Inr:
  "fetchCalendars env pid months = Inr calendars \<longleftrightarrow>
     map (\<lambda>(y, m). getPriceCalendarWithDb env pid y m) months = map Inr calendars"
  by (simp add: fetchCalendars_def promiseAll_Inr)

lemma POST_priceStay:
  assumes "requiredParameters b = Some (pid, cin, cout, g)"
    and "\<not> date_less cin today" and "date_less cin cout"
    and "getPropertyWithDb env pid = Inr property"
    and "checkAvailabilityWithFlags env pid cin cout = Inr avail"
    and "isAvailable avail"
  shows "POST env today b =
    priceStay env pid cin cout g property (differenceInDays cout cin) (source avail)
      [GetProperty pid, CheckAvailability pid cin cout]"
  using assms by (simp add: POST_def Let_def)

lemma POST_Priced:
  assumes "POST env today b = (Priced pd rates cur src, tr)"
    and "requiredParameters b = Some (pid, cin, cout, g)"
    and "getPropertyWithDb env pid = Inr property"
    and "fetchCalendars env pid (getMonthsBetweenDates env cin cout) = Inr calendars"
  shows "\<exists>st. nightLoop g property calendars (nat (differenceInDays cout cin))
           (initialState property cin) = Inr st \<and> rates = dailyPrices st"
  using assms
  by (auto simp: POST_def priceStay_def Let_def
      split: option.splits if_splits sum.splits prod.splits)

lemma nightLoop_requiredStay_Max:
  assumes "nightLoop g property calendars k st = Inr st'"
  shows "requiredStay st' = Max (insert (requiredStay st)
     {m. m \<noteq> 0 \<and> (\<exists>i<k. \<exists>dp. lookupDayPrice calendars (nightDate (currentDate st) i) = Some dp \<and>
            minimumStay dp = Some m)})"
proof (rule Max_eqI [symmetric])
  show "finite (insert (requiredStay st)
     {m. m \<noteq> 0 \<and> (\<exists>i<k. \<exists>dp. lookupDayPrice calendars (nightDate (currentDate st) i) = Some dp \<and>
            minimumStay dp = Some m)})"
    by (simp add: finite_nightly_values)
  show "requiredStay st' \<in> insert (requiredStay st)
     {m. m \<noteq> 0 \<and> (\<exists>i<k. \<exists>dp. lookupDayPrice calendars (nightDate (currentDate st) i) = Some dp \<and>
            minimumStay dp = Some m)}"
    using nightLoop_requiredStay_attained [OF assms] by blast
  fix y
  assume "y \<in> insert (requiredStay st)
     {m. m \<noteq> 0 \<and> (\<exists>i<k. \<exists>dp. lookupDayPrice calendars (nightDate (currentDate st) i) = Some dp \<and>
            minimumStay dp = Some m)}"
  then show "y \<le> requiredStay st'"
    using nightLoop_requiredStay_ge [OF assms] nightLoop_requiredStay_bound [OF assms]
    by auto
qed

lemma Max_insert_zero:
  assumes "finite A" and "(0::int) \<le> x"
  shows "Max (insert x (insert 0 A)) = Max (insert x A)"
proof -
  have "Max (insert x (insert 0 A)) = Max (insert 0 (insert x A))"
    by (simp add: insert_commute)
  also have "\<dots> = max 0 (Max (insert x A))"
    using assms(1) by (intro Max_insert) auto
  also have "\<dots> = Max (insert x A)"
    using assms by (simp add: max_def Max_ge_iff)
  finally show ?thesis .
qed


subsection \<open>The handler\<close>

lemma POST_nightly_rate:
  assumes "POST env today b = (Priced pd rates cur src, tr)"
    and "requiredParameters b = Some (pid, cin, cout, g)"
    and "getPropertyWithDb env pid = Inr property"
    and "fetchCalendars env pid (getMonthsBetweenDates env cin cout) = Inr calendars"
    and "validDate cin"
    and "n < nat (differenceInDays cout cin)"
    and "lookupDayPrice calendars (nightDate cin n) = Some dp"
  shows "map_of rates (format_yyyy_MM_dd (nightDate cin n)) = Some (resolvePrice g property dp)"
proof -
  from POST_Priced [OF assms(1-4)] obtain st
    where loop: "nightLoop g property calendars (nat (differenceInDays cout cin))
        (initialState property cin) = Inr st"
      and rates: "rates = dailyPrices st"
    by blast
  have "validDate (currentDate (initialState property cin))"
    using assms(5) by (simp add: initialState_def)
  from nightLoop_price [OF loop this assms(6)] assms(7)
  show ?thesis
    by (simp add: rates initialState_def)
qed

lemma POST_split:
  "fst (POST env today b) = r \<Longrightarrow> POST env today b = (r, snd (POST env today b))"
  by (cases "POST env today b") simp

subsection \<open>The handler on the sample data\<close>

lemma toString_samples:
  "toString 1 = ''1''" "toString 2 = ''2''" "toString 3 = ''3''" "toString 4 = ''4''"
  "toString 30 = ''30''" "toString 31 = ''31''"
  by code_simp+

lemma sample_dates:
  "nightDate d 0 = d"
  "nightDate (ymd 2030 1 30) 1 = ymd 2030 1 31"
  "nightDate (ymd 2030 1 30) 2 = ymd 2030 2 1"
  "nightDate (ymd 2030 1 31) 1 = ymd 2030 2 1"
  "nightDate (ymd 2030 1 31) 2 = ymd 2030 2 2"
  by (simp add: nightDate_def, code_simp+)

lemma sample_format:
  "format_yyyy_MM_dd (ymd 2030 1 30) = ''2030-01-30''"
  "format_yyyy_MM_dd (ymd 2030 1 31) = ''2030-01-31''"
  "format_yyyy_MM_dd (ymd 2030 2 1) = ''2030-02-01''"
  "format_yyyy_MM_dd (ymd 2030 2 2) = ''2030-02-02''"
  by code_simp+

lemma sample_lookup:
  "lookupDayPrice [Some january, Some february] (ymd 2030 1 30) = Some jan30"
  "lookupDayPrice [Some january, Some february] (ymd 2030 1 31) = Some jan31"
  "lookupDayPrice [Some january, Some february] (ymd 2030 2 1) = Some feb01"
  "lookupDayPrice [Some january, Some february] (ymd 2030 2 2) = None"
  by (simp_all add: lookupDayPrice_def findCalendar_def january_def february_def ymd_def
      getFullYear_def getMonth_def getDate_def toString_samples)

lemma sample_valid: "validDate (ymd 2030 1 30)"
  by (simp add: validDate_def ymd_def daysInMonth_def)

lemma sample_order:
  "\<not> date_less (ymd 2030 1 30) (ymd 2030 1 1)" "date_less (ymd 2030 1 30) (ymd 2030 2 1)"
  "date_less (ymd 2030 1 30) (ymd 2030 2 2)"
  "\<not> date_less (ymd 2030 1 31) (ymd 2030 1 1)" "date_less (ymd 2030 1 31) (ymd 2030 2 3)"
  "\<not> date_less (ymd 2030 1 29) (ymd 2030 1 1)" "date_less (ymd 2030 1 29) (ymd 2030 2 1)"
  "\<not> date_less (ymd 2030 2 28) (ymd 2030 1 1)" "date_less (ymd 2030 2 28) (ymd 2030 3 1)"
  "\<not> date_less (ymd 2030 1 30) (ymd 2030 1 30)"
  by (simp_all add: date_less_def ymd_def)

lemma sample_nights:
  "nat (differenceInDays (ymd 2030 2 1) (ymd 2030 1 30)) = 2"
  "nat (differenceInDays (ymd 2030 2 2) (ymd 2030 1 30)) = 3"
  "nat (differenceInDays (ymd 2030 2 3) (ymd 2030 1 31)) = 3"
  by code_simp+

lemma sample_parameters:
  "requiredParameters (request cin cout 2) = Some (''villa'', cin, cout, 2)"
  "requiredParameters (request cin cout 3) = Some (''villa'', cin, cout, 3)"
  "requiredParameters (request cin cout 4) = Some (''villa'', cin, cout, 4)"
  by (simp_all add: requiredParameters_def request_def)

lemma sample_property: "getPropertyWithDb sampleEnv ''villa'' = Inr villa"
  by (simp add: sampleEnv_def)

lemma sample_calendars:
  "fetchCalendars sampleEnv ''villa'' (getMonthsBetweenDates sampleEnv (ymd 2030 1 30) (ymd 2030 2 1))
     = Inr [Some january, Some february]"
  "fetchCalendars sampleEnv ''villa'' (getMonthsBetweenDates sampleEnv (ymd 2030 1 30) (ymd 2030 2 2))
     = Inr [Some january, Some february]"
  "fetchCalendars sampleEnv ''villa'' (getMonthsBetweenDates sampleEnv (ymd 2030 1 31) (ymd 2030 2 3))
     = Inr [Some january, Some february]"
  "fetchCalendars sampleEnv ''villa'' (getMonthsBetweenDates sampleEnv (ymd 2030 2 28) (ymd 2030 3 1))
     = Inr [Some february, None]"
  by (simp_all add: fetchCalendars_def sampleEnv_def ymd_def getFullYear_def getMonth_def)

lemma sample_available:
  "checkAvailabilityWithFlags sampleEnv ''villa'' (ymd 2030 1 30) cout
     = Inr \<lparr>isAvailable = True, unavailableDates = [], source = ''availability''\<rparr>"
  "checkAvailabilityWithFlags sampleEnv ''villa'' (ymd 2030 1 31) cout
     = Inr \<lparr>isAvailable = True, unavailableDates = [], source = ''availability''\<rparr>"
  "checkAvailabilityWithFlags sampleEnv ''villa'' (ymd 2030 2 28) cout
     = Inr \<lparr>isAvailable = True, unavailableDates = [], source = ''availability''\<rparr>"
  "checkAvailabilityWithFlags sampleEnv ''villa'' (ymd 2030 1 29) cout
     = Inr \<lparr>isAvailable = False, unavailableDates = [ymd 2030 1 29], source = ''availability''\<rparr>"
  by (simp_all add: sampleEnv_def ymd_def)

lemma sample_priced:
  "fst (POST sampleEnv (ymd 2030 1 1) (request (ymd 2030 1 30) (ymd 2030 2 1) 2))
     = Priced 230 [(''2030-01-30'', 100), (''2030-01-31'', 110)] ''EUR'' ''availability''"
  "fst (POST sampleEnv (ymd 2030 1 1) (request (ymd 2030 1 30) (ymd 2030 2 1) 3))
     = Priced 290 [(''2030-01-30'', 150), (''2030-01-31'', 120)] ''EUR'' ''availability''"
  "fst (POST sampleEnv (ymd 2030 1 1) (request (ymd 2030 1 30) (ymd 2030 2 1) 4))
     = Priced 270 [(''2030-01-30'', 120), (''2030-01-31'', 130)] ''EUR'' ''availability''"
  by code_simp+

lemma sample_loop:
  "nightLoop 2 villa [Some january, Some february] 3 (initialState villa (ymd 2030 1 30)) =
     Inr \<lparr>dailyPrices = [(''2030-01-30'', 100), (''2030-01-31'', 110), (''2030-02-01'', 90)],
          requiredStay = 4, currentDate = ymd 2030 2 2,
          stored = [(''2030-01-30'', 100), (''2030-01-31'', 110), (''2030-02-01'', 90)]\<rparr>"
  by code_simp

section \<open>The claims\<close>

text \<open>
  In the claims about a night's price, the night is night \<open>n\<close> of the stay, its date
  is \<open>nightDate cin n\<close>, its calendar entry is \<open>dp\<close>, and its resolved price is the
  entry of the priced answer's \<open>dailyRates\<close> under the date's text.
\<close>

subsection \<open>C1: an override for the guest count\<close>

text \<open>
  C1, as the handler has it. For every night of a priced stay with more guests than
  the base occupancy, when the day's \<open>prices\<close> has an entry under the guest count's
  text and the entry is not 0, the night's resolved price is that entry, whatever
  the formula with the extra-guest fee would give.
\<close>

theorem nonzero_override_wins:
  assumes "POST env today b = (Priced pd rates cur src, tr)"
    and "requiredParameters b = Some (pid, cin, cout, g)"
    and "getPropertyWithDb env pid = Inr property"
    and "fetchCalendars env pid (getMonthsBetweenDates env cin cout) = Inr calendars"
    and "validDate cin"
    and "n < nat (differenceInDays cout cin)"
    and "lookupDayPrice calendars (nightDate cin n) = Some dp"
    and "baseOccupancy property < g"
    and "prices dp = Some ps"
    and "ps (toString g) = Some v"
    and "v \<noteq> 0"
  shows "map_of rates (format_yyyy_MM_dd (nightDate cin n)) = Some v"
  using POST_nightly_rate [OF assms(1-7)] assms(8-11)
  by (simp add: resolvePrice_def Let_def)

theorem nonzero_override_wins_witness:
  "map_of [(''2030-01-30'', 150), (''2030-01-31'', 120)] ''2030-01-30'' = Some (150::int)"
proof -
  have n: "0 < nat (differenceInDays (ymd 2030 2 1) (ymd 2030 1 30))"
    unfolding sample_nights by simp
  have look: "lookupDayPrice [Some january, Some february] (nightDate (ymd 2030 1 30) 0) = Some jan30"
    by (simp only: sample_dates sample_lookup)
  have g: "baseOccupancy villa < 3"
    by (simp add: villa_def)
  have ps: "prices jan30 = Some overrides"
    by (simp add: jan30_def)
  have v: "overrides (toString 3) = Some 150"
    by (simp add: overrides_def toString_samples)
  have nz: "(150::int) \<noteq> 0"
    by simp
  from nonzero_override_wins [OF POST_split [OF sample_priced(2)]
      sample_parameters(2) sample_property sample_calendars(1) sample_valid n look g ps v nz]
  show ?thesis
    by (simp only: sample_dates sample_format)
qed

text \<open>
  C1 as stated fails for an entry of 0. With 4 guests at the villa (base occupancy 2,
  fee 10), the night of 2030-01-30 has base price 100 and the entry \<open>''4'' \<mapsto> 0\<close>;
  the handler answers 120 for that night, the formula's amount, not the entry.
\<close>

theorem override_counterexample:
  "baseOccupancy villa < 4 \<and>
   lookupDayPrice [Some january, Some february] (ymd 2030 1 30) = Some jan30 \<and>
   prices jan30 = Some overrides \<and>
   overrides (toString 4) = Some 0 \<and>
   fst (POST sampleEnv (ymd 2030 1 1) (request (ymd 2030 1 30) (ymd 2030 2 1) 4))
     = Priced 270 [(''2030-01-30'', 120), (''2030-01-31'', 130)] ''EUR'' ''availability'' \<and>
   map_of [(''2030-01-30'', 120), (''2030-01-31'', 130)] (format_yyyy_MM_dd (ymd 2030 1 30)) \<noteq> Some (0::int)"
proof (intro conjI)
  show "baseOccupancy villa < 4"
    by (simp add: villa_def)
  show "lookupDayPrice [Some january, Some february] (ymd 2030 1 30) = Some jan30"
    by (rule sample_lookup)
  show "prices jan30 = Some overrides"
    by (simp add: jan30_def)
  show "overrides (toString 4) = Some 0"
    by (simp add: overrides_def toString_samples)
  show "fst (POST sampleEnv (ymd 2030 1 1) (request (ymd 2030 1 30) (ymd 2030 2 1) 4))
     = Priced 270 [(''2030-01-30'', 120), (''2030-01-31'', 130)] ''EUR'' ''availability''"
    by (rule sample_priced)
  show "map_of [(''2030-01-30'', 120), (''2030-01-31'', 130)] (format_yyyy_MM_dd (ymd 2030 1 30))
      \<noteq> Some (0::int)"
    unfolding sample_format by simp
qed

subsection \<open>C2: the effective minimum stay\<close>

text \<open>
  C2. When the loop over the nights completes, the handler's \<^verbatim>\<open>minimumStay\<close> is the
  maximum of the seed, which is the property's \<open>defaultMinimumStay\<close> or 1 when that
  is absent, and of the \<open>minimumStay\<close> of every night of the range; in particular
  it is never below the seed. The seed is taken to be at least 0, as the data
  model has it (an integer of at least 1): the loop skips a nightly value of 0,
  which only a negative seed could make the maximum.
\<close>

theorem effective_minimum_stay_is_maximum:
  assumes "nightLoop g property calendars nights (initialState property checkInDate) = Inr st"
    and "0 \<le> (case defaultMinimumStay property of None \<Rightarrow> 1 | Some d \<Rightarrow> d)"
  shows "requiredStay st =
      Max (insert (case defaultMinimumStay property of None \<Rightarrow> 1 | Some d \<Rightarrow> d)
        {m. \<exists>i<nights. \<exists>dp. lookupDayPrice calendars (nightDate checkInDate i) = Some dp \<and>
              minimumStay dp = Some m})
    \<and> (case defaultMinimumStay property of None \<Rightarrow> 1 | Some d \<Rightarrow> d) \<le> requiredStay st"
proof -
  let ?seed = "case defaultMinimumStay property of None \<Rightarrow> 1 | Some d \<Rightarrow> d"
  let ?all = "{m. \<exists>i<nights. \<exists>dp. lookupDayPrice calendars (nightDate checkInDate i) = Some dp \<and>
              minimumStay dp = Some m}"
  let ?nz = "{m. m \<noteq> 0 \<and> (\<exists>i<nights. \<exists>dp. lookupDayPrice calendars (nightDate checkInDate i) = Some dp \<and>
              minimumStay dp = Some m)}"
  have seed: "requiredStay (initialState property checkInDate) = ?seed"
    by (simp add: initialState_def nullish_def)
  have cur: "currentDate (initialState property checkInDate) = checkInDate"
    by (simp add: initialState_def)
  from nightLoop_requiredStay_Max [OF assms(1)]
  have nz: "requiredStay st = Max (insert ?seed ?nz)"
    by (simp only: seed cur)
  have fin: "finite ?nz"
    by (rule finite_nightly_values)
  have "Max (insert ?seed ?all) = Max (insert ?seed ?nz)"
  proof (cases "0 \<in> ?all")
    case True
    then have "?all = insert 0 ?nz" by auto
    with Max_insert_zero [OF fin assms(2)] show ?thesis by simp
  next
    case False
    then have "?all = ?nz" by (auto intro: ccontr)
    then show ?thesis by simp
  qed
  with nz have "requiredStay st = Max (insert ?seed ?all)" by simp
  moreover from nightLoop_requiredStay_ge [OF assms(1)] have "?seed \<le> requiredStay st"
    by (simp only: seed)
  ultimately show ?thesis by simp
qed

theorem effective_minimum_stay_is_maximum_witness:
  "(4::int) = Max (insert 1 {m. \<exists>i<3. \<exists>dp.
      lookupDayPrice [Some january, Some february] (nightDate (ymd 2030 1 30) i) = Some dp \<and>
      minimumStay dp = Some m}) \<and> (1::int) \<le> 4"
proof -
  have seed: "(case defaultMinimumStay villa of None \<Rightarrow> 1 | Some d \<Rightarrow> d) = 1"
    by (simp add: villa_def)
  then have "0 \<le> (case defaultMinimumStay villa of None \<Rightarrow> 1 | Some d \<Rightarrow> d)"
    by simp
  from effective_minimum_stay_is_maximum [OF sample_loop this]
  show ?thesis by (simp add: seed)
qed

subsection \<open>C3: dates that are not available\<close>

text \<open>
  C3. When the request passes validation, the property is found and the availability
  service answers \<open>isAvailable = False\<close>, the handler returns the unavailable-dates
  answer with the service's date list and source tag. It has then called the
  property lookup and the availability service and nothing else: no calendar is
  fetched, no nightly price is stored, the price calculation is not called, and
  the answer is not a priced one.
\<close>

theorem unavailable_short_circuit:
  assumes "requiredParameters b = Some (pid, cin, cout, g)"
    and "\<not> date_less cin today" and "date_less cin cout"
    and "getPropertyWithDb env pid = Inr property"
    and "checkAvailabilityWithFlags env pid cin cout = Inr avail"
    and "\<not> isAvailable avail"
  shows "POST env today b =
    (UnavailableDates (unavailableDates avail) (source avail),
     [GetProperty pid, CheckAvailability pid cin cout])"
  using assms by (simp add: POST_def Let_def)

theorem unavailable_short_circuit_witness:
  "POST sampleEnv (ymd 2030 1 1) (request (ymd 2030 1 29) (ymd 2030 2 1) 2) =
    (UnavailableDates [ymd 2030 1 29] ''availability'',
     [GetProperty ''villa'', CheckAvailability ''villa'' (ymd 2030 1 29) (ymd 2030 2 1)])"
proof -
  have "\<not> isAvailable \<lparr>isAvailable = False, unavailableDates = [ymd 2030 1 29], source = ''availability''\<rparr>"
    by simp
  from unavailable_short_circuit [OF sample_parameters(1) sample_order(6) sample_order(7)
      sample_property sample_available(4) this]
  show ?thesis by simp
qed

subsection \<open>C4: a stay shorter than the minimum\<close>

text \<open>
  C4. When the loop over the nights has completed with the state \<open>st\<close> and the number
  of nights is below \<open>requiredStay st\<close>, the handler returns the minimum-stay answer
  whose two fields both are \<open>requiredStay st\<close>. By then a price has been stored for
  every night of the range, in order, and the price calculation is not called.
\<close>

theorem minimum_stay_rejection:
  assumes "requiredParameters b = Some (pid, cin, cout, g)"
    and "\<not> date_less cin today" and "date_less cin cout"
    and "getPropertyWithDb env pid = Inr property"
    and "checkAvailabilityWithFlags env pid cin cout = Inr avail"
    and "isAvailable avail"
    and "fetchCalendars env pid (getMonthsBetweenDates env cin cout) = Inr calendars"
    and "None \<notin> set calendars"
    and "nightLoop g property calendars (nat (differenceInDays cout cin)) (initialState property cin) = Inr st"
    and "differenceInDays cout cin < requiredStay st"
  shows "POST env today b =
      (MinimumStay (requiredStay st) (requiredStay st) (source avail),
       [GetProperty pid, CheckAvailability pid cin cout, GetMonths cin cout]
         @ map (\<lambda>(y, m). GetPriceCalendar pid y m) (getMonthsBetweenDates env cin cout)
         @ map (\<lambda>(k, v). StorePrice k v) (stored st))
    \<and> map fst (stored st) =
        map (\<lambda>i. format_yyyy_MM_dd (nightDate cin i)) [0..<nat (differenceInDays cout cin)]
    \<and> filter isCalculateBookingPrice (snd (POST env today b)) = []"
proof -
  have post: "POST env today b =
      (MinimumStay (requiredStay st) (requiredStay st) (source avail),
       [GetProperty pid, CheckAvailability pid cin cout, GetMonths cin cout]
         @ map (\<lambda>(y, m). GetPriceCalendar pid y m) (getMonthsBetweenDates env cin cout)
         @ map (\<lambda>(k, v). StorePrice k v) (stored st))"
    using assms(7-10)
    by (simp add: POST_priceStay [OF assms(1-6)] priceStay_def Let_def some_null_iff)
  have "map fst (stored st) =
      map (\<lambda>i. format_yyyy_MM_dd (nightDate cin i)) [0..<nat (differenceInDays cout cin)]"
    using nightLoop_stored [OF assms(9)] by (simp add: initialState_def)
  moreover have "filter isCalculateBookingPrice (snd (POST env today b)) = []"
    by (auto simp: post filter_empty_conv)
  ultimately show ?thesis
    using post by simp
qed

theorem minimum_stay_rejection_witness:
  "POST sampleEnv (ymd 2030 1 1) (request (ymd 2030 1 30) (ymd 2030 2 2) 2) =
    (MinimumStay 4 4 ''availability'',
     [GetProperty ''villa'', CheckAvailability ''villa'' (ymd 2030 1 30) (ymd 2030 2 2),
      GetMonths (ymd 2030 1 30) (ymd 2030 2 2),
      GetPriceCalendar ''villa'' 2030 1, GetPriceCalendar ''villa'' 2030 2,
      StorePrice ''2030-01-30'' 100, StorePrice ''2030-01-31'' 110, StorePrice ''2030-02-01'' 90])"
proof -
  let ?st = "\<lparr>dailyPrices = [(''2030-01-30'', 100), (''2030-01-31'', 110), (''2030-02-01'', 90)],
          requiredStay = 4, currentDate = ymd 2030 2 2,
          stored = [(''2030-01-30'', 100), (''2030-01-31'', 110), (''2030-02-01'', 90)]\<rparr>"
  have av: "isAvailable \<lparr>isAvailable = True, unavailableDates = [], source = ''availability''\<rparr>"
    by simp
  have nonull: "None \<notin> set [Some january, Some february]"
    by simp
  have loop: "nightLoop 2 villa [Some january, Some february]
      (nat (differenceInDays (ymd 2030 2 2) (ymd 2030 1 30))) (initialState villa (ymd 2030 1 30)) = Inr ?st"
    unfolding sample_nights by (rule sample_loop)
  have short: "differenceInDays (ymd 2030 2 2) (ymd 2030 1 30) < requiredStay ?st"
    by code_simp
  have months: "getMonthsBetweenDates sampleEnv (ymd 2030 1 30) (ymd 2030 2 2) = [(2030, 1), (2030, 2)]"
    by (simp add: sampleEnv_def ymd_def getFullYear_def getMonth_def)
  from minimum_stay_rejection [OF sample_parameters(1) sample_order(1) sample_order(3)
      sample_property sample_available(1) av sample_calendars(2) nonull loop short]
  show ?thesis
    by (simp add: months del: One_nat_def)
qed

subsection \<open>C5: check-in not before check-out\<close>

text \<open>
  C5, as the handler has it. For every request that has all four parameters and whose
  check-in is not before today, a check-in that is not before the check-out gives
  the invalid-date-range response, whatever the property, the guests and the
  collaborators are.
\<close>

theorem invalid_date_range_after_earlier_checks:
  assumes "requiredParameters b = Some (pid, cin, cout, g)"
    and "\<not> date_less cin today"
    and "\<not> date_less cin cout"
  shows "POST env today b = (InvalidDateRange, [])"
  using assms by (simp add: POST_def)

theorem invalid_date_range_after_earlier_checks_witness:
  "POST sampleEnv (ymd 2030 1 1) (request (ymd 2030 1 30) (ymd 2030 1 30) 2) = (InvalidDateRange, [])"
  by (rule invalid_date_range_after_earlier_checks [OF sample_parameters(1) sample_order(1) sample_order(10)])

text \<open>
  C5 as stated fails when an earlier check answers first: a check-in after the
  check-out that lies in the past gives the past-check-in response, and a request
  without guests gives the missing-parameters response.
\<close>

theorem invalid_date_range_counterexample:
  "\<not> date_less (ymd 2029 12 31) (ymd 2029 12 30) \<and>
   fst (POST sampleEnv (ymd 2030 1 1) (request (ymd 2029 12 31) (ymd 2029 12 30) 2)) = PastCheckIn \<and>
   \<not> date_less (ymd 2030 1 30) (ymd 2030 1 30) \<and>
   fst (POST sampleEnv (ymd 2030 1 1)
     \<lparr>propertyId = Some ''villa'', checkIn = Some (ymd 2030 1 30), checkOut = Some (ymd 2030 1 30),
      guests = None\<rparr>) = MissingParameters"
  by (simp add: POST_def requiredParameters_def request_def date_less_def ymd_def)

subsection \<open>C6: guests within the base occupancy\<close>

text \<open>
  C6. For every night of a priced stay with at most as many guests as the base
  occupancy, the night's resolved price is the day's \<open>basePrice\<close>, whatever the day's
  \<open>prices\<close> and the property's extra-guest fee are.
\<close>

theorem base_price_within_base_occupancy:
  assumes "POST env today b = (Priced pd rates cur src, tr)"
    and "requiredParameters b = Some (pid, cin, cout, g)"
    and "getPropertyWithDb env pid = Inr property"
    and "fetchCalendars env pid (getMonthsBetweenDates env cin cout) = Inr calendars"
    and "validDate cin"
    and "n < nat (differenceInDays cout cin)"
    and "lookupDayPrice calendars (nightDate cin n) = Some dp"
    and "g \<le> baseOccupancy property"
  shows "map_of rates (format_yyyy_MM_dd (nightDate cin n)) = Some (basePrice dp)"
  using POST_nightly_rate [OF assms(1-7)] assms(8)
  by (simp add: resolvePrice_def)

theorem base_price_within_base_occupancy_witness:
  "map_of [(''2030-01-30'', 100), (''2030-01-31'', 110)] ''2030-01-30'' = Some (basePrice jan30)"
proof -
  have n: "0 < nat (differenceInDays (ymd 2030 2 1) (ymd 2030 1 30))"
    unfolding sample_nights by simp
  have look: "lookupDayPrice [Some january, Some february] (nightDate (ymd 2030 1 30) 0) = Some jan30"
    by (simp only: sample_dates sample_lookup)
  have g: "2 \<le> baseOccupancy villa"
    by (simp add: villa_def)
  from base_price_within_base_occupancy [OF POST_split [OF sample_priced(1)]
      sample_parameters(1) sample_property sample_calendars(1) sample_valid n look g]
  show ?thesis
    by (simp only: sample_dates sample_format)
qed

subsection \<open>C7: no override for the guest count\<close>

text \<open>
  C7. For every night of a priced stay with more guests than the base occupancy, when
  the day has no \<open>prices\<close> or no entry under the guest count's text, the night's
  resolved price is the base price plus the fee for each extra guest, the fee
  being 0 when the property has none.
\<close>

theorem formula_without_override:
  assumes "POST env today b = (Priced pd rates cur src, tr)"
    and "requiredParameters b = Some (pid, cin, cout, g)"
    and "getPropertyWithDb env pid = Inr property"
    and "fetchCalendars env pid (getMonthsBetweenDates env cin cout) = Inr calendars"
    and "validDate cin"
    and "n < nat (differenceInDays cout cin)"
    and "lookupDayPrice calendars (nightDate cin n) = Some dp"
    and "baseOccupancy property < g"
    and "(case prices dp of None \<Rightarrow> None | Some ps \<Rightarrow> ps (toString g)) = None"
  shows "map_of rates (format_yyyy_MM_dd (nightDate cin n)) =
    Some (basePrice dp + (g - baseOccupancy property) *
      (case extraGuestFee property of None \<Rightarrow> 0 | Some fee \<Rightarrow> fee))"
  using POST_nightly_rate [OF assms(1-7)] assms(8-9)
  by (simp add: resolvePrice_def Let_def orElse_def split: option.splits)

theorem formula_without_override_witness:
  "map_of [(''2030-01-30'', 150), (''2030-01-31'', 120)] ''2030-01-31'' = Some (110 + (3 - 2) * (10::int))"
proof -
  have n: "1 < nat (differenceInDays (ymd 2030 2 1) (ymd 2030 1 30))"
    unfolding sample_nights by simp
  have look: "lookupDayPrice [Some january, Some february] (nightDate (ymd 2030 1 30) 1) = Some jan31"
    by (simp only: sample_dates sample_lookup)
  have g: "baseOccupancy villa < 3"
    by (simp add: villa_def)
  have none: "(case prices jan31 of None \<Rightarrow> None | Some ps \<Rightarrow> ps (toString 3)) = None"
    by (simp add: jan31_def)
  from formula_without_override [OF POST_split [OF sample_priced(2)]
      sample_parameters(2) sample_property sample_calendars(1) sample_valid n look g none]
  have "map_of [(''2030-01-30'', 150), (''2030-01-31'', 120)] ''2030-01-31'' =
    Some (basePrice jan31 + (3 - baseOccupancy villa) *
      (case extraGuestFee villa of None \<Rightarrow> 0 | Some fee \<Rightarrow> fee))"
    by (simp only: sample_dates sample_format)
  then show ?thesis
    by (simp add: jan31_def villa_def)
qed

subsection \<open>C8: missing calendars and missing days\<close>

text \<open>
  C8. Let the request pass validation and the availability check and let every
  calendar fetch return. If one of the fetched calendars is null, the handler
  returns the price-data-unavailable response, having stored no nightly price. If
  none is null and night \<open>n\<close> is the first whose day has no entry, the handler
  returns the day-price-unavailable response that names the date of night \<open>n\<close>.
\<close>

theorem calendar_failures:
  assumes "requiredParameters b = Some (pid, cin, cout, g)"
    and "\<not> date_less cin today" and "date_less cin cout"
    and "getPropertyWithDb env pid = Inr property"
    and "checkAvailabilityWithFlags env pid cin cout = Inr avail"
    and "isAvailable avail"
    and "fetchCalendars env pid (getMonthsBetweenDates env cin cout) = Inr calendars"
  shows "(None \<in> set calendars \<longrightarrow>
      POST env today b =
        (PriceDataUnavailable,
         [GetProperty pid, CheckAvailability pid cin cout, GetMonths cin cout]
           @ map (\<lambda>(y, m). GetPriceCalendar pid y m) (getMonthsBetweenDates env cin cout)))
    \<and> (None \<notin> set calendars \<and> n < nat (differenceInDays cout cin) \<and>
        lookupDayPrice calendars (nightDate cin n) = None \<and>
        (\<forall>i<n. lookupDayPrice calendars (nightDate cin i) \<noteq> None) \<longrightarrow>
      fst (POST env today b) = DayPriceUnavailable (format_yyyy_MM_dd (nightDate cin n)))"
proof (intro conjI impI)
  assume "None \<in> set calendars"
  with assms(7) show "POST env today b =
        (PriceDataUnavailable,
         [GetProperty pid, CheckAvailability pid cin cout, GetMonths cin cout]
           @ map (\<lambda>(y, m). GetPriceCalendar pid y m) (getMonthsBetweenDates env cin cout))"
    by (simp add: POST_priceStay [OF assms(1-6)] priceStay_def Let_def some_null_iff)
next
  assume a: "None \<notin> set calendars \<and> n < nat (differenceInDays cout cin) \<and>
        lookupDayPrice calendars (nightDate cin n) = None \<and>
        (\<forall>i<n. lookupDayPrice calendars (nightDate cin i) \<noteq> None)"
  have cur: "currentDate (initialState property cin) = cin"
    by (simp add: initialState_def)
  from a have "\<exists>ps. nightLoop g property calendars (nat (differenceInDays cout cin))
      (initialState property cin) = Inl (format_yyyy_MM_dd (nightDate cin n), ps)"
    using nightLoop_fails_at [of n "nat (differenceInDays cout cin)" calendars
        "initialState property cin" g property]
    by (simp add: cur)
  then obtain ps where "nightLoop g property calendars (nat (differenceInDays cout cin))
      (initialState property cin) = Inl (format_yyyy_MM_dd (nightDate cin n), ps)"
    by blast
  with a assms(7) show "fst (POST env today b) = DayPriceUnavailable (format_yyyy_MM_dd (nightDate cin n))"
    by (simp add: POST_priceStay [OF assms(1-6)] priceStay_def Let_def some_null_iff)
qed

theorem calendar_failures_witness:
  "POST sampleEnv (ymd 2030 1 1) (request (ymd 2030 2 28) (ymd 2030 3 1) 2) =
      (PriceDataUnavailable,
       [GetProperty ''villa'', CheckAvailability ''villa'' (ymd 2030 2 28) (ymd 2030 3 1),
        GetMonths (ymd 2030 2 28) (ymd 2030 3 1),
        GetPriceCalendar ''villa'' 2030 2, GetPriceCalendar ''villa'' 2030 3])
   \<and> fst (POST sampleEnv (ymd 2030 1 1) (request (ymd 2030 1 31) (ymd 2030 2 3) 2))
      = DayPriceUnavailable ''2030-02-02''"
proof -
  have av: "isAvailable \<lparr>isAvailable = True, unavailableDates = [], source = ''availability''\<rparr>"
    by simp
  have months: "getMonthsBetweenDates sampleEnv (ymd 2030 2 28) (ymd 2030 3 1) = [(2030, 2), (2030, 3)]"
    by (simp add: sampleEnv_def ymd_def getFullYear_def getMonth_def)
  have null: "None \<in> set [Some february, None]"
    by simp
  from calendar_failures [OF sample_parameters(1) sample_order(8) sample_order(9)
      sample_property sample_available(3) av sample_calendars(4)] null
  have first: "POST sampleEnv (ymd 2030 1 1) (request (ymd 2030 2 28) (ymd 2030 3 1) 2) =
      (PriceDataUnavailable,
       [GetProperty ''villa'', CheckAvailability ''villa'' (ymd 2030 2 28) (ymd 2030 3 1),
        GetMonths (ymd 2030 2 28) (ymd 2030 3 1),
        GetPriceCalendar ''villa'' 2030 2, GetPriceCalendar ''villa'' 2030 3])"
    by (simp add: months del: One_nat_def)
  have nonull: "None \<notin> set [Some january, Some february]"
    by simp
  have n: "2 < nat (differenceInDays (ymd 2030 2 3) (ymd 2030 1 31))"
    unfolding sample_nights by simp
  have missing: "lookupDayPrice [Some january, Some february] (nightDate (ymd 2030 1 31) 2) = None"
    by (simp only: sample_dates sample_lookup)
  have before: "\<forall>i<2. lookupDayPrice [Some january, Some february] (nightDate (ymd 2030 1 31) i) \<noteq> None"
  proof (intro allI impI)
    fix i :: nat
    assume "i < 2"
    then consider "i = 0" | "i = 1" by linarith
    then show "lookupDayPrice [Some january, Some february] (nightDate (ymd 2030 1 31) i) \<noteq> None"
    proof cases
      case 1
      then show ?thesis by (simp only: sample_dates sample_lookup) simp
    next
      case 2
      then show ?thesis by (simp only: sample_dates sample_lookup) simp
    qed
  qed
  from calendar_failures [OF sample_parameters(1) sample_order(4) sample_order(5)
      sample_property sample_available(2) av sample_calendars(3), of 2] nonull n missing before
  have "fst (POST sampleEnv (ymd 2030 1 1) (request (ymd 2030 1 31) (ymd 2030 2 3) 2))
      = DayPriceUnavailable (format_yyyy_MM_dd (nightDate (ymd 2030 1 31) 2))"
    by blast
  then have second: "fst (POST sampleEnv (ymd 2030 1 1) (request (ymd 2030 1 31) (ymd 2030 2 3) 2))
      = DayPriceUnavailable ''2030-02-02''"
    by (simp only: sample_dates sample_format)
  from first second show ?thesis by simp
qed

subsection \<open>C9: the source tag\<close>

text \<open>
  C9. Every response that has a \<^verbatim>\<open>meta.source\<close>, that is the unavailable-dates, the
  minimum-stay and the priced answer, carries the source tag that the availability
  service returned for the request's property and dates.
\<close>

theorem source_carried_through:
  assumes "POST env today b = (r, tr)"
    and "metaSource r = Some s"
  shows "\<exists>pid cin cout g avail. requiredParameters b = Some (pid, cin, cout, g) \<and>
     checkAvailabilityWithFlags env pid cin cout = Inr avail \<and> source avail = s"
  using assms
  by (auto simp: POST_def priceStay_def Let_def
      split: option.splits if_splits sum.splits prod.splits)

theorem source_carried_through_witness:
  "\<exists>pid cin cout g avail.
     requiredParameters (request (ymd 2030 1 30) (ymd 2030 2 1) 2) = Some (pid, cin, cout, g) \<and>
     checkAvailabilityWithFlags sampleEnv pid cin cout = Inr avail \<and> source avail = ''availability''"
proof -
  have "metaSource (Priced (230::int) [(''2030-01-30'', 100), (''2030-01-31'', 110)] ''EUR'' ''availability'')
      = Some ''availability''"
    by simp
  from source_carried_through [OF POST_split [OF sample_priced(1)] this]
  show ?thesis .
qed

subsection \<open>C10: an override of 0\<close>

text \<open>
  C10. For every night of a priced stay with more guests than the base occupancy, when
  the day's \<open>prices\<close> has the entry 0 under the guest count's text, the night's
  resolved price is the formula's amount: the base price plus the fee for each
  extra guest.
\<close>

theorem zero_override_falls_through:
  assumes "POST env today b = (Priced pd rates cur src, tr)"
    and "requiredParameters b = Some (pid, cin, cout, g)"
    and "getPropertyWithDb env pid = Inr property"
    and "fetchCalendars env pid (getMonthsBetweenDates env cin cout) = Inr calendars"
    and "validDate cin"
    and "n < nat (differenceInDays cout cin)"
    and "lookupDayPrice calendars (nightDate cin n) = Some dp"
    and "baseOccupancy property < g"
    and "prices dp = Some ps"
    and "ps (toString g) = Some 0"
  shows "map_of rates (format_yyyy_MM_dd (nightDate cin n)) =
    Some (basePrice dp + (g - baseOccupancy property) *
      (case extraGuestFee property of None \<Rightarrow> 0 | Some fee \<Rightarrow> fee))"
  using POST_nightly_rate [OF assms(1-7)] assms(8-10)
  by (simp add: resolvePrice_def Let_def orElse_def split: option.splits)

theorem zero_override_falls_through_witness:
  "map_of [(''2030-01-30'', 120), (''2030-01-31'', 130)] ''2030-01-30'' = Some (100 + (4 - 2) * (10::int))"
proof -
  have n: "0 < nat (differenceInDays (ymd 2030 2 1) (ymd 2030 1 30))"
    unfolding sample_nights by simp
  have look: "lookupDayPrice [Some january, Some february] (nightDate (ymd 2030 1 30) 0) = Some jan30"
    by (simp only: sample_dates sample_lookup)
  have g: "baseOccupancy villa < 4"
    by (simp add: villa_def)
  have ps: "prices jan30 = Some overrides"
    by (simp add: jan30_def)
  have v: "overrides (toString 4) = Some 0"
    by (simp add: overrides_def toString_samples)
  from zero_override_falls_through [OF POST_split [OF sample_priced(3)]
      sample_parameters(3) sample_property sample_calendars(1) sample_valid n look g ps v]
  have "map_of [(''2030-01-30'', 120), (''2030-01-31'', 130)] ''2030-01-30'' =
    Some (basePrice jan30 + (4 - baseOccupancy villa) *
      (case extraGuestFee villa of None \<Rightarrow> 0 | Some fee \<Rightarrow> fee))"
    by (simp only: sample_dates sample_format)
  then show ?thesis
    by (simp add: jan30_def villa_def)
qed

end
